theory Spec2Isabelle
  imports Main "HOL-Library.Word"
begin

text \<open>
  The display runtime of the charger comes in three generations of one header:
  \<^verbatim>\<open>ui_framework.h\<close> (the original), \<^verbatim>\<open>refactor/UI_Framework.h\<close> with
  \<^verbatim>\<open>refactor/IR_CommandManager.h\<close>, and \<^verbatim>\<open>refactor/refactor2/UI_Framework.h\<close>.
  Definitions carry the source's names; where the original differs from the refactored
  code its version has the suffix \<open>_orig\<close>, and where \<open>refactor2\<close> differs from
  \<open>refactor\<close> its version has the suffix \<open>_refactor2\<close>.
\<close>

section \<open>The infrared command table (refactor/IR\_CommandManager.h)\<close>

text \<open>
  Input codes are \<open>uint32_t\<close>; the clock \<open>millis()\<close> is an \<open>unsigned long\<close>, 32 bits wide
  on the target, so elapsed time \<open>currentTime - lastCommandTime\<close> is a wrapping
  subtraction. Both are 32-bit words here. A \<open>std::function<void()>\<close> is opaque to the
  manager: it is identified by a number, an empty one is \<open>None\<close>, and calling it is
  recorded in the list of invocations that every dispatch returns.
\<close>

type_synonym uint32 = "32 word"
type_synonym callback = nat

record CommandMapping =
  code :: uint32
  handler :: "callback option"
  description :: string

record IRCommandManager =
  commandMappings :: "CommandMapping list"
  lastCode :: uint32
  lastCommandTime :: uint32

definition REPEAT_DELAY :: uint32 where
  "REPEAT_DELAY = 250"

definition IRCommandManager_init :: IRCommandManager where
  "IRCommandManager_init = \<lparr>commandMappings = [], lastCode = 0, lastCommandTime = 0\<rparr>"

definition addCommand :: "uint32 \<Rightarrow> callback option \<Rightarrow> string \<Rightarrow> IRCommandManager \<Rightarrow> IRCommandManager" where
  "addCommand c h d m =
     m\<lparr>commandMappings := commandMappings m @ [\<lparr>code = c, handler = h, description = d\<rparr>]\<rparr>"

definition clearCommands :: "IRCommandManager \<Rightarrow> IRCommandManager" where
  "clearCommands m = m\<lparr>commandMappings := []\<rparr>"

text \<open>\<^verbatim>\<open>if (mapping.handler) mapping.handler();\<close>\<close>

definition invoke :: "callback option \<Rightarrow> callback list" where
  "invoke h = (case h of None \<Rightarrow> [] | Some f \<Rightarrow> [f])"

text \<open>
  The \<^verbatim>\<open>for (const auto& mapping : commandMappings)\<close> loop of \<open>handleCommand\<close>: the first
  mapping whose code matches is served and the function returns \<open>true\<close>; falling off the
  end returns \<open>false\<close> and leaves the manager as it was.
\<close>

fun scanMappings ::
  "CommandMapping list \<Rightarrow> uint32 \<Rightarrow> uint32 \<Rightarrow> IRCommandManager
     \<Rightarrow> bool \<times> callback list \<times> IRCommandManager" where
  "scanMappings [] c currentTime m = (False, [], m)"
| "scanMappings (mapping # rest) c currentTime m =
     (if code mapping = c
      then (True, invoke (handler mapping), m\<lparr>lastCode := c, lastCommandTime := currentTime\<rparr>)
      else scanMappings rest c currentTime m)"

text \<open>
  \<open>handleCommand code\<close> at clock value \<open>currentTime\<close>. The result is the returned flag,
  the handlers invoked, and the manager afterwards. The source's second parameter
  \<open>repeat\<close> is assigned in the sentinel branch and never read, so it is left out.
\<close>

definition handleCommand ::
  "uint32 \<Rightarrow> uint32 \<Rightarrow> IRCommandManager \<Rightarrow> bool \<times> callback list \<times> IRCommandManager" where
  "handleCommand c currentTime m =
     (if c = 0xFFFFFFFF then
        (if lastCode m \<noteq> 0 \<and> REPEAT_DELAY \<le> currentTime - lastCommandTime m
         then scanMappings (commandMappings m) (lastCode m) currentTime m
         else (False, [], m))
      else scanMappings (commandMappings m) c currentTime m)"

text \<open>A code is registered when some entry of the table carries it.\<close>

definition registered :: "uint32 \<Rightarrow> IRCommandManager \<Rightarrow> bool" where
  "registered c m = (c \<in> set (map code (commandMappings m)))"

text \<open>
  A sequence of dispatches, as the polling loop issues them: each input is an input code
  with the clock value at which it arrives. The outcome lists, per input, the code, the
  flag returned and the handlers invoked.
\<close>

fun handleCommands ::
  "(uint32 \<times> uint32) list \<Rightarrow> IRCommandManager
     \<Rightarrow> (uint32 \<times> bool \<times> callback list) list \<times> IRCommandManager" where
  "handleCommands [] m = ([], m)"
| "handleCommands ((c, currentTime) # rest) m =
     (case handleCommand c currentTime m of (r, hs, m') \<Rightarrow>
        (case handleCommands rest m' of (out, m'') \<Rightarrow> ((c, r, hs) # out, m'')))"

text \<open>
  The dispatch result as the specification words it: true iff the code matches some
  registered entry, or is a valid repeat of the preceding dispatched code (the sentinel,
  a previous code on record, the repeat delay not still running, that code registered).
\<close>

definition valid_repeat :: "uint32 \<Rightarrow> uint32 \<Rightarrow> IRCommandManager \<Rightarrow> bool" where
  "valid_repeat c now m =
     (c = 0xFFFFFFFF \<and> lastCode m \<noteq> 0 \<and> \<not> now - lastCommandTime m < REPEAT_DELAY
        \<and> registered (lastCode m) m)"

definition spec_dispatch :: "uint32 \<Rightarrow> uint32 \<Rightarrow> IRCommandManager \<Rightarrow> bool" where
  "spec_dispatch c now m = (registered c m \<or> valid_repeat c now m)"

section \<open>Widgets\<close>

text \<open>
  \<open>namespace IRCodes\<close> of \<^verbatim>\<open>refactor/IR_CommandManager.h\<close>; the original header writes
  the same numbers as literals in \<open>Screen::handleInput\<close> and \<open>Button::handleInput\<close>.
\<close>

definition IRCodes_UP :: uint32 where "IRCodes_UP = 0xFF629D"
definition IRCodes_OK :: uint32 where "IRCodes_OK = 0xFF02FD"

text \<open>
  \<open>class Widget\<close> with its subclasses as a tag. Labels and buttons carry their text and
  callback; the numeric payload of the original's \<open>FloatDisplay\<close>, \<open>BatteryWidget\<close> and
  \<open>FunctionPlotter\<close> is floating point that only their drawing reads, and is not
  represented.
\<close>

type_synonym int16 = "16 word"

datatype WidgetKind =
    Label string bool
  | Button string "callback option"
  | FloatDisplay
  | BatteryWidget
  | FunctionPlotter

record Widget =
  pos_x :: int16
  pos_y :: int16
  width :: int16
  height :: int16
  focused :: bool
  dirty :: bool
  kind :: WidgetKind

text \<open>The constructor \<open>Widget(x, y, w, h)\<close>: not focused, dirty.\<close>

definition Widget_new :: "int16 \<Rightarrow> int16 \<Rightarrow> int16 \<Rightarrow> int16 \<Rightarrow> WidgetKind \<Rightarrow> Widget" where
  "Widget_new px py w h k =
     \<lparr>pos_x = px, pos_y = py, width = w, height = h, focused = False, dirty = True, kind = k\<rparr>"

definition setFocus :: "bool \<Rightarrow> Widget \<Rightarrow> Widget" where
  "setFocus focus w = w\<lparr>focused := focus, dirty := True\<rparr>"

definition isDirty :: "Widget \<Rightarrow> bool" where
  "isDirty w = dirty w"

definition clearDirty :: "Widget \<Rightarrow> Widget" where
  "clearDirty w = w\<lparr>dirty := False\<rparr>"

text \<open>
  \<open>Button::handleInput(uint32_t irCode)\<close> of \<open>refactor2\<close>, on the button's \<open>focused\<close> flag
  and \<open>callback\<close>, and the virtual \<open>Widget::handleInput\<close> over the two classes that header
  defines. The header of \<open>refactor\<close> declares the same interface and no subclass of its
  own, so its screens run with these. No \<open>handleInput\<close> changes the widget, so the result
  is the callbacks invoked.
\<close>

definition Button_handleInput :: "uint32 \<Rightarrow> bool \<Rightarrow> callback option \<Rightarrow> callback list" where
  "Button_handleInput irCode focus cb =
     (if focus \<and> irCode = IRCodes_OK then invoke cb else [])"

definition Widget_handleInput :: "uint32 \<Rightarrow> Widget \<Rightarrow> callback list" where
  "Widget_handleInput irCode w =
     (case kind w of Button l cb \<Rightarrow> Button_handleInput irCode (focused w) cb | _ \<Rightarrow> [])"

text \<open>
  The original header passes an \<open>InputEvent\<close>; its \<open>Button::handleInput\<close> looks at the
  event only.
\<close>

datatype InputEventType = NONE | IR_BUTTON | TIMER

record InputEvent =
  ev_type :: InputEventType
  ev_value :: uint32

definition Button_handleInput_orig :: "InputEvent \<Rightarrow> bool \<Rightarrow> callback option \<Rightarrow> callback list" where
  "Button_handleInput_orig event focus cb =
     (if ev_type event = IR_BUTTON \<and> ev_value event = 0xFF02FD then invoke cb else [])"

definition Widget_handleInput_orig :: "InputEvent \<Rightarrow> Widget \<Rightarrow> callback list" where
  "Widget_handleInput_orig event w =
     (case kind w of Button l cb \<Rightarrow> Button_handleInput_orig event (focused w) cb | _ \<Rightarrow> [])"

text \<open>
  The rendering sink \<open>Adafruit_SSD1306\<close> is outside the repository; it is the sequence of
  calls made on it. \<open>Widget::draw\<close> is pure virtual and no subclass's \<open>draw\<close> writes to the
  widget: drawing an element is one entry, holding the element as it is drawn.
\<close>

datatype DisplayCall = ClearDisplay | DrawWidget Widget | Display

definition Widget_draw :: "Widget \<Rightarrow> DisplayCall list \<Rightarrow> DisplayCall list" where
  "Widget_draw w d = d @ [DrawWidget w]"

section \<open>Screens\<close>

text \<open>
  A screen owns its widgets, each held by one pointer in one place of the vector, so the
  vector is a list of widget values. \<open>focusedWidgetIndex\<close> is a \<open>size_t\<close>, 32 bits on
  the target, kept as a natural number with the wrap-around of its arithmetic written
  out. \<open>addWidget\<close> is the same in the three headers.
  \<open>operator[]\<close> of \<open>std::vector\<close> is unchecked: an index outside the vector is
  \<open>OutOfRange\<close>. A vector of pointers cannot grow beyond \<open>max_size()\<close>
  (\<open>PTRDIFF_MAX / sizeof(Widget*)\<close> on the 32-bit target); \<open>push_back\<close> on a full vector
  is \<open>LengthError\<close>.
\<close>

datatype error = LengthError | OutOfRange

record Screen =
  widgets :: "Widget list"
  focusedWidgetIndex :: nat

definition Screen_init :: Screen where
  "Screen_init = \<lparr>widgets = [], focusedWidgetIndex = 0\<rparr>"

definition vector_max_size :: nat where
  "vector_max_size = 536870911"

definition size_t_of_int :: "int \<Rightarrow> nat" where
  "size_t_of_int i = nat (i mod 2 ^ 32)"

definition size_t_add :: "nat \<Rightarrow> nat \<Rightarrow> nat" where
  "size_t_add a b = (a + b) mod 2 ^ 32"

definition size_t_sub :: "nat \<Rightarrow> nat \<Rightarrow> nat" where
  "size_t_sub a b = nat ((int a - int b) mod 2 ^ 32)"

definition addWidget :: "Widget \<Rightarrow> Screen \<Rightarrow> error + Screen" where
  "addWidget widget s =
     (if vector_max_size \<le> length (widgets s) then Inl LengthError
      else let ws = widgets s @ [widget]
           in Inr (s\<lparr>widgets := (if length ws = 1
                                   then ws[length (widgets s) := setFocus True widget]
                                   else ws)\<rparr>))"

text \<open>
  \<open>Screen::handleInput(uint32_t irCode)\<close> of \<open>refactor\<close> and \<open>refactor2\<close>: every code goes to
  the focused widget.
\<close>

definition handleInput :: "uint32 \<Rightarrow> Screen \<Rightarrow> error + callback list \<times> Screen" where
  "handleInput irCode s =
     (if widgets s \<noteq> [] then
        (if focusedWidgetIndex s < length (widgets s)
         then Inr (Widget_handleInput irCode (widgets s ! focusedWidgetIndex s), s)
         else Inl OutOfRange)
      else Inr ([], s))"

text \<open>The loop of \<open>Screen::draw\<close>, the same in the three headers.\<close>

fun drawWidgets :: "Widget list \<Rightarrow> DisplayCall list \<Rightarrow> Widget list \<times> DisplayCall list" where
  "drawWidgets [] d = ([], d)"
| "drawWidgets (widget # rest) d =
     (if isDirty widget
      then (case drawWidgets rest (Widget_draw widget d) of
              (rest', d') \<Rightarrow> (clearDirty widget # rest', d'))
      else (case drawWidgets rest d of (rest', d') \<Rightarrow> (widget # rest', d')))"

definition draw :: "Screen \<Rightarrow> DisplayCall list \<Rightarrow> Screen \<times> DisplayCall list" where
  "draw s d = (case drawWidgets (widgets s) d of (ws, d') \<Rightarrow> (s\<lparr>widgets := ws\<rparr>, d'))"

text \<open>
  \<open>changeFocus(int direction)\<close> of \<open>refactor\<close>, which is \<open>navigate\<close> of \<open>refactor2\<close>:
  \<^verbatim>\<open>(focusedWidgetIndex + widgets.size() + direction) % widgets.size()\<close> is computed in
  \<open>size_t\<close>, the \<open>int\<close> converted to unsigned.
\<close>

definition changeFocus :: "int \<Rightarrow> Screen \<Rightarrow> error + Screen" where
  "changeFocus direction s =
     (if widgets s = [] then Inr s
      else if \<not> focusedWidgetIndex s < length (widgets s) then Inl OutOfRange
      else
        let ws = (widgets s)[focusedWidgetIndex s :=
                     setFocus False (widgets s ! focusedWidgetIndex s)];
            i = size_t_add (size_t_add (focusedWidgetIndex s) (length ws))
                  (size_t_of_int direction) mod length ws
        in Inr \<lparr>widgets = ws[i := setFocus True (ws ! i)], focusedWidgetIndex = i\<rparr>)"

definition navigateUp :: "Screen \<Rightarrow> error + Screen" where
  "navigateUp s = changeFocus (- 1) s"

definition navigateDown :: "Screen \<Rightarrow> error + Screen" where
  "navigateDown s = changeFocus 1 s"

definition navigate :: "int \<Rightarrow> Screen \<Rightarrow> error + Screen" where
  "navigate direction s = changeFocus direction s"

text \<open>\<open>changeFocus\<close> and \<open>Screen::handleInput(const InputEvent&)\<close> of the original header.\<close>

definition changeFocus_orig :: "int \<Rightarrow> Screen \<Rightarrow> error + Screen" where
  "changeFocus_orig direction s =
     (if widgets s = [] then Inr s
      else if \<not> focusedWidgetIndex s < length (widgets s) then Inl OutOfRange
      else
        let ws = (widgets s)[focusedWidgetIndex s :=
                     setFocus False (widgets s ! focusedWidgetIndex s)];
            i = (if direction > 0
                 then size_t_add (focusedWidgetIndex s) 1 mod length ws
                 else size_t_sub (size_t_add (focusedWidgetIndex s) (length ws)) 1
                        mod length ws)
        in Inr \<lparr>widgets = ws[i := setFocus True (ws ! i)], focusedWidgetIndex = i\<rparr>)"

definition handleInput_orig :: "InputEvent \<Rightarrow> Screen \<Rightarrow> error + callback list \<times> Screen" where
  "handleInput_orig event s =
     (if ev_type event = IR_BUTTON then
        (if ev_value event = 0xFF629D then
           (case changeFocus_orig (- 1) s of Inl e \<Rightarrow> Inl e | Inr s' \<Rightarrow> Inr ([], s'))
         else if ev_value event = 0xFFA857 then
           (case changeFocus_orig 1 s of Inl e \<Rightarrow> Inl e | Inr s' \<Rightarrow> Inr ([], s'))
         else
           (if focusedWidgetIndex s < length (widgets s)
            then Inr (Widget_handleInput_orig event (widgets s ! focusedWidgetIndex s), s)
            else Inr ([], s)))
      else Inr ([], s))"



text \<open>
  Calls on one screen, in sequence; the first error ends the run. \<open>NavigateUp\<close> and
  \<open>NavigateDown\<close> are the two public entries of \<open>refactor\<close>, \<open>Navigate\<close> the public
  \<open>navigate\<close> of \<open>refactor2\<close>.
\<close>

datatype ScreenOp =
    AddWidget Widget
  | NavigateUp
  | NavigateDown
  | Navigate int
  | HandleInput uint32

fun applyOp :: "ScreenOp \<Rightarrow> Screen \<Rightarrow> error + Screen" where
  "applyOp (AddWidget widget) s = addWidget widget s"
| "applyOp NavigateUp s = navigateUp s"
| "applyOp NavigateDown s = navigateDown s"
| "applyOp (Navigate direction) s = navigate direction s"
| "applyOp (HandleInput irCode) s =
     (case handleInput irCode s of Inl e \<Rightarrow> Inl e | Inr (invoked, s') \<Rightarrow> Inr s')"

fun runOps :: "ScreenOp list \<Rightarrow> Screen \<Rightarrow> error + Screen" where
  "runOps [] s = Inr s"
| "runOps (operation # rest) s =
     (case applyOp operation s of Inl e \<Rightarrow> Inl e | Inr s' \<Rightarrow> runOps rest s')"

section \<open>The manager of screens\<close>

text \<open>
  \<open>class UIManager\<close> of \<open>refactor\<close> and \<open>refactor2\<close>, without the receiver. \<open>setScreen\<close> is
  the one of \<open>refactor\<close>; \<open>refactor2\<close> drops the call of \<open>clearDisplay\<close>.
\<close>

record UIManager =
  display :: "DisplayCall list"
  irManager :: IRCommandManager
  screens :: "Screen list"
  currentScreenIndex :: nat

definition addScreen :: "Screen \<Rightarrow> UIManager \<Rightarrow> UIManager" where
  "addScreen screen m = m\<lparr>screens := screens m @ [screen]\<rparr>"

definition setScreen :: "nat \<Rightarrow> UIManager \<Rightarrow> UIManager" where
  "setScreen index m =
     (if index < length (screens m)
      then m\<lparr>currentScreenIndex := index, display := display m @ [ClearDisplay]\<rparr>
      else m)"

definition setScreen_refactor2 :: "nat \<Rightarrow> UIManager \<Rightarrow> UIManager" where
  "setScreen_refactor2 index m =
     (if index < length (screens m) then m\<lparr>currentScreenIndex := index\<rparr> else m)"

text \<open>
  The original keeps its screens in slots indexed by \<open>enum ScreenType\<close>; a slot that
  \<open>addScreen\<close> has not filled holds \<open>nullptr\<close>, here \<open>None\<close>.
\<close>

record UIManager_orig =
  display_orig :: "DisplayCall list"
  screens_orig :: "Screen option list"
  currentScreenType :: nat
  lastUpdateTime :: uint32

definition addScreen_orig :: "nat \<Rightarrow> Screen \<Rightarrow> UIManager_orig \<Rightarrow> UIManager_orig" where
  "addScreen_orig type screen m =
     (let slots = (if type \<ge> length (screens_orig m)
                   then screens_orig m @ replicate (type + 1 - length (screens_orig m)) None
                   else screens_orig m)
      in m\<lparr>screens_orig := slots[type := Some screen]\<rparr>)"

definition setScreen_orig :: "nat \<Rightarrow> UIManager_orig \<Rightarrow> UIManager_orig" where
  "setScreen_orig type m =
     (if type < length (screens_orig m) \<and> screens_orig m ! type \<noteq> None
      then m\<lparr>currentScreenType := type, display_orig := display_orig m @ [ClearDisplay]\<rparr>
      else m)"

section \<open>Invariants of a screen\<close>

text \<open>
  The focus index lies inside the vector, which has not outgrown its capacity; on an
  empty screen the index is still the initial 0.
\<close>

definition index_inv :: "Screen \<Rightarrow> bool" where
  "index_inv s =
     (length (widgets s) \<le> vector_max_size \<and>
      (if widgets s = [] then focusedWidgetIndex s = 0
       else focusedWidgetIndex s < length (widgets s)))"

text \<open>The element at the focus index is the one and only focused element.\<close>

definition focus_inv :: "Screen \<Rightarrow> bool" where
  "focus_inv s =
     (\<forall>i < length (widgets s). focused (widgets s ! i) \<longleftrightarrow> i = focusedWidgetIndex s)"

section \<open>Properties of the command table\<close>

subsection \<open>The scan of the table\<close>

lemma scanMappings_flag: "fst (scanMappings mps c t m) = (c \<in> set (map code mps))"
  by (induction mps) auto

lemma scanMappings_miss:
  "c \<notin> set (map code mps) \<Longrightarrow> scanMappings mps c t m = (False, [], m)"
  by (induction mps) auto

lemma scanMappings_hit:
  "c \<in> set (map code mps) \<Longrightarrow>
     \<exists>mp. find (\<lambda>mp. code mp = c) mps = Some mp \<and>
       scanMappings mps c t m = (True, invoke (handler mp), m\<lparr>lastCode := c, lastCommandTime := t\<rparr>)"
  by (induction mps) auto

lemma scanMappings_True:
  assumes "scanMappings mps c t m = (True, hs, m')"
  shows "c \<in> set (map code mps) \<and> m' = m\<lparr>lastCode := c, lastCommandTime := t\<rparr>
     \<and> (\<exists>mp. find (\<lambda>mp. code mp = c) mps = Some mp \<and> hs = invoke (handler mp))"
proof -
  have reg: "c \<in> set (map code mps)"
    using assms scanMappings_flag [of mps c t m] by simp
  from scanMappings_hit [OF reg, of t m] assms show ?thesis
    using reg by auto
qed

lemma scanMappings_False:
  assumes "scanMappings mps c t m = (False, hs, m')"
  shows "c \<notin> set (map code mps) \<and> hs = [] \<and> m' = m"
proof -
  have reg: "c \<notin> set (map code mps)"
    using assms scanMappings_flag [of mps c t m] by simp
  from scanMappings_miss [OF reg, of t m] assms show ?thesis
    using reg by simp
qed

lemma handleCommand_True:
  assumes "handleCommand c t m = (True, hs, m')"
  shows "\<exists>k. k = (if c = 0xFFFFFFFF then lastCode m else c) \<and>
           (c = 0xFFFFFFFF \<longrightarrow> lastCode m \<noteq> 0 \<and> REPEAT_DELAY \<le> t - lastCommandTime m) \<and>
           k \<in> set (map code (commandMappings m)) \<and>
           m' = m\<lparr>lastCode := k, lastCommandTime := t\<rparr> \<and>
           (\<exists>mp. find (\<lambda>mp. code mp = k) (commandMappings m) = Some mp \<and> hs = invoke (handler mp))"
  using assms unfolding handleCommand_def
  by (auto split: if_splits dest!: scanMappings_True)

lemma handleCommand_False:
  assumes "handleCommand c t m = (False, hs, m')"
  shows "hs = [] \<and> m' = m"
  using assms unfolding handleCommand_def
  by (auto split: if_splits dest!: scanMappings_False)

subsection \<open>Repeat after a dispatch\<close>

text \<open>
  C2. Let a dispatch of a code \<open>C\<close> at clock value \<open>t0\<close> succeed, invoking the handlers
  \<open>hs\<close>. The source takes \<open>lastCode = 0\<close> for "nothing dispatched yet", so the claim holds
  for \<open>C \<noteq> 0\<close>: a repeat sentinel at \<open>t\<close> with \<open>t - t0 < REPEAT_DELAY\<close> (unsigned 32-bit
  subtraction, as the source computes it) returns false, invokes nothing and leaves the
  manager as it is; with \<open>REPEAT_DELAY \<le> t - t0\<close> it returns true, invokes the same
  handlers again and records \<open>t\<close>. These handlers are those of the first entry
  registered under \<open>C\<close>. A sentinel arriving while \<open>lastCode = 0\<close> returns false. A
  dispatch that returns false invokes nothing and leaves the manager as it is, so the
  dispatch of \<open>C\<close> stays the last one on record until another succeeds.
\<close>

theorem repeat_after_dispatch:
  assumes "C \<noteq> 0" and "handleCommand C t0 m0 = (True, hs, m1)"
  shows "(t - t0 < REPEAT_DELAY \<longrightarrow> handleCommand 0xFFFFFFFF t m1 = (False, [], m1)) \<and>
         (REPEAT_DELAY \<le> t - t0 \<longrightarrow>
            handleCommand 0xFFFFFFFF t m1 = (True, hs, m1\<lparr>lastCommandTime := t\<rparr>)) \<and>
         (C \<noteq> 0xFFFFFFFF \<longrightarrow>
            (\<exists>mp. find (\<lambda>mp. code mp = C) (commandMappings m1) = Some mp
                \<and> hs = invoke (handler mp))) \<and>
         (lastCode m = 0 \<longrightarrow> handleCommand 0xFFFFFFFF t' m = (False, [], m)) \<and>
         (handleCommand c' t' m = (False, hs', m') \<longrightarrow> hs' = [] \<and> m' = m)"
proof -
  from handleCommand_True [OF assms(2)] obtain k mp where
    k: "k = (if C = 0xFFFFFFFF then lastCode m0 else C)" and
    rep: "C = 0xFFFFFFFF \<longrightarrow> lastCode m0 \<noteq> 0" and
    reg: "k \<in> set (map code (commandMappings m0))" and
    m1: "m1 = m0\<lparr>lastCode := k, lastCommandTime := t0\<rparr>" and
    mp: "find (\<lambda>mp. code mp = k) (commandMappings m0) = Some mp" "hs = invoke (handler mp)"
    by blast
  have k0: "k \<noteq> 0" using k rep assms(1) by auto
  from scanMappings_hit [OF reg, of t m1] mp
  have scan: "scanMappings (commandMappings m0) k t m1 = (True, hs, m1\<lparr>lastCode := k, lastCommandTime := t\<rparr>)"
    by auto
  have early: "t - t0 < REPEAT_DELAY \<longrightarrow> handleCommand 0xFFFFFFFF t m1 = (False, [], m1)"
    by (auto simp: handleCommand_def m1)
  have late: "REPEAT_DELAY \<le> t - t0 \<longrightarrow>
            handleCommand 0xFFFFFFFF t m1 = (True, hs, m1\<lparr>lastCommandTime := t\<rparr>)"
    using scan k0 by (simp add: handleCommand_def m1)
  have own: "C \<noteq> 0xFFFFFFFF \<longrightarrow>
            (\<exists>mp. find (\<lambda>mp. code mp = C) (commandMappings m1) = Some mp
                \<and> hs = invoke (handler mp))"
    using mp k by (auto simp: m1)
  have none: "lastCode m = 0 \<longrightarrow> handleCommand 0xFFFFFFFF t' m = (False, [], m)"
    by (simp add: handleCommand_def)
  have failed: "handleCommand c' t' m = (False, hs', m') \<longrightarrow> hs' = [] \<and> m' = m"
    using handleCommand_False [of c' t' m hs' m'] by blast
  from early late own none failed show ?thesis by blast
qed

theorem repeat_after_dispatch_witness:
  "handleCommand 2 1000 (addCommand 2 (Some 7) ''dec'' IRCommandManager_init)
     = (True, [7], \<lparr>commandMappings = [\<lparr>code = 2, handler = Some 7, description = ''dec''\<rparr>],
                    lastCode = 2, lastCommandTime = 1000\<rparr>)
   \<and> handleCommand 0xFFFFFFFF 1249
        \<lparr>commandMappings = [\<lparr>code = 2, handler = Some 7, description = ''dec''\<rparr>],
         lastCode = 2, lastCommandTime = 1000\<rparr>
     = (False, [], \<lparr>commandMappings = [\<lparr>code = 2, handler = Some 7, description = ''dec''\<rparr>],
         lastCode = 2, lastCommandTime = 1000\<rparr>)
   \<and> handleCommand 0xFFFFFFFF 1250
        \<lparr>commandMappings = [\<lparr>code = 2, handler = Some 7, description = ''dec''\<rparr>],
         lastCode = 2, lastCommandTime = 1000\<rparr>
     = (True, [7], \<lparr>commandMappings = [\<lparr>code = 2, handler = Some 7, description = ''dec''\<rparr>],
         lastCode = 2, lastCommandTime = 1250\<rparr>)
   \<and> handleCommand 0xFFFFFFFF 1250 IRCommandManager_init = (False, [], IRCommandManager_init)
   \<and> handleCommand 5 1250 IRCommandManager_init = (False, [], IRCommandManager_init)"
proof -
  let ?m0 = "addCommand 2 (Some 7) ''dec'' IRCommandManager_init"
  let ?m1 = "\<lparr>commandMappings = [\<lparr>code = 2, handler = Some 7, description = ''dec''\<rparr>],
              lastCode = 2, lastCommandTime = 1000\<rparr>"
  have nz: "(2::uint32) \<noteq> 0" by simp
  have first: "handleCommand 2 1000 ?m0 = (True, [7], ?m1)"
    by (simp add: handleCommand_def addCommand_def IRCommandManager_init_def invoke_def)
  have early: "(1249::uint32) - 1000 < REPEAT_DELAY" by (simp add: REPEAT_DELAY_def)
  have late: "REPEAT_DELAY \<le> (1250::uint32) - 1000" by (simp add: REPEAT_DELAY_def)
  have init: "lastCode IRCommandManager_init = 0" by (simp add: IRCommandManager_init_def)
  have miss: "handleCommand 5 1250 IRCommandManager_init = (False, [], IRCommandManager_init)"
    by (simp add: handleCommand_def IRCommandManager_init_def)
  from repeat_after_dispatch [OF nz first, of 1249 IRCommandManager_init 1250 5 "[]"
         IRCommandManager_init]
       repeat_after_dispatch [OF nz first, of 1250 IRCommandManager_init 1250 5 "[]"
         IRCommandManager_init]
       first early late init miss
  show ?thesis by simp
qed

text \<open>
  For a command registered under code 0 the claim as stated fails: the dispatch succeeds,
  and the sentinel is refused although the delay has passed.
\<close>

theorem repeat_after_dispatch_counterexample:
  "handleCommand 0 1000 (addCommand 0 (Some 7) ''zero'' IRCommandManager_init)
     = (True, [7], \<lparr>commandMappings = [\<lparr>code = 0, handler = Some 7, description = ''zero''\<rparr>],
                    lastCode = 0, lastCommandTime = 1000\<rparr>)
   \<and> REPEAT_DELAY \<le> 5000 - 1000
   \<and> fst (handleCommand 0xFFFFFFFF 5000
        \<lparr>commandMappings = [\<lparr>code = 0, handler = Some 7, description = ''zero''\<rparr>],
         lastCode = 0, lastCommandTime = 1000\<rparr>) = False"
  by (simp add: handleCommand_def addCommand_def IRCommandManager_init_def invoke_def
      REPEAT_DELAY_def)

subsection \<open>When a dispatch returns true\<close>

text \<open>
  C3. \<open>handleCommand\<close> returns true exactly when the code is not the repeat sentinel and
  matches a registered entry, or is the sentinel while \<open>lastCode \<noteq> 0\<close>, at least
  \<open>REPEAT_DELAY\<close> has passed since the last dispatch, and \<open>lastCode\<close> matches a registered
  entry. With an empty table it returns false for every code.
\<close>

theorem handleCommand_true_iff:
  "(fst (handleCommand c now m) \<longleftrightarrow>
      (c \<noteq> 0xFFFFFFFF \<and> registered c m) \<or>
      (c = 0xFFFFFFFF \<and> lastCode m \<noteq> 0 \<and> REPEAT_DELAY \<le> now - lastCommandTime m
         \<and> registered (lastCode m) m))
   \<and> (commandMappings m = [] \<longrightarrow> fst (handleCommand c now m) = False)"
  unfolding handleCommand_def registered_def
  by (simp add: scanMappings_flag)

theorem handleCommand_true_iff_witness:
  "fst (handleCommand 2 1000 (addCommand 2 (Some 7) ''dec'' IRCommandManager_init))
   \<and> \<not> fst (handleCommand 1 1000 (addCommand 2 (Some 7) ''dec'' IRCommandManager_init))
   \<and> \<not> fst (handleCommand 0xFFFFFFFF 1000 (addCommand 0xFFFFFFFF (Some 7) ''again'' IRCommandManager_init))
   \<and> \<not> fst (handleCommand 2 1000 IRCommandManager_init)"
  using handleCommand_true_iff [of 2 1000 "addCommand 2 (Some 7) ''dec'' IRCommandManager_init"]
        handleCommand_true_iff [of 1 1000 "addCommand 2 (Some 7) ''dec'' IRCommandManager_init"]
        handleCommand_true_iff [of "0xFFFFFFFF" 1000 "addCommand 0xFFFFFFFF (Some 7) ''again'' IRCommandManager_init"]
        handleCommand_true_iff [of 2 1000 IRCommandManager_init]
  by (simp add: registered_def addCommand_def IRCommandManager_init_def)

text \<open>
  The sentinel is tested before the table is scanned, so an entry registered under the
  sentinel itself does not make a dispatch of it succeed: the reading "true iff the code
  matches some registered entry or is a valid repeat" fails on a fresh manager holding
  such an entry.
\<close>

theorem handleCommand_true_iff_counterexample:
  "fst (handleCommand 0xFFFFFFFF 1000 (addCommand 0xFFFFFFFF (Some 7) ''again'' IRCommandManager_init))
     \<noteq> spec_dispatch 0xFFFFFFFF 1000 (addCommand 0xFFFFFFFF (Some 7) ''again'' IRCommandManager_init)"
  by (simp add: handleCommand_def addCommand_def IRCommandManager_init_def spec_dispatch_def
      registered_def)

subsection \<open>A command registered under code 0\<close>

lemma handleCommands_zero:
  "lastCode m = 0 \<Longrightarrow> handleCommands inputs m = (out, m2) \<Longrightarrow>
   (\<forall>(c, r, hs) \<in> set out. r \<longrightarrow> c = 0 \<or> c = 0xFFFFFFFF) \<Longrightarrow>
   lastCode m2 = 0 \<and> (\<forall>(c, r, hs) \<in> set out. c = 0xFFFFFFFF \<longrightarrow> \<not> r \<and> hs = [])"
proof (induction inputs arbitrary: m out m2)
  case Nil
  then show ?case by simp
next
  case (Cons a inputs)
  obtain c t where a: "a = (c, t)" by (cases a)
  obtain r hs m' where step: "handleCommand c t m = (r, hs, m')"
    by (cases "handleCommand c t m")
  obtain out' m'' where rest: "handleCommands inputs m' = (out', m'')"
    by (cases "handleCommands inputs m'")
  from Cons.prems(2) a step rest have out: "out = (c, r, hs) # out'" and m2: "m2 = m''"
    by auto
  have rep: "c = 0xFFFFFFFF \<longrightarrow> \<not> r \<and> hs = [] \<and> m' = m"
    using step Cons.prems(1) by (auto simp: handleCommand_def)
  have ok: "r \<longrightarrow> c = 0 \<or> c = 0xFFFFFFFF" using Cons.prems(3) out by auto
  have last': "lastCode m' = 0"
  proof (cases r)
    case True
    with ok rep have "c = 0" by auto
    with True step handleCommand_True [of c t m hs m'] show ?thesis by auto
  next
    case False
    with step handleCommand_False [of c t m hs m'] Cons.prems(1) show ?thesis by auto
  qed
  have "\<forall>(c, r, hs) \<in> set out'. r \<longrightarrow> c = 0 \<or> c = 0xFFFFFFFF"
    using Cons.prems(3) out by auto
  from Cons.IH [OF last' rest this] rep show ?case
    by (auto simp: out m2)
qed

text \<open>
  C10. A fresh manager has \<open>lastCode = 0\<close>, and that value is what the sentinel branch
  takes for "no previous dispatch". After a successful dispatch of code 0, let any
  inputs follow in which no code other than 0 is dispatched successfully: every repeat
  sentinel among them returned false and invoked no handler, and so does a sentinel
  arriving afterwards at any clock value \<open>t\<close>, which leaves the manager unchanged.
\<close>

theorem zero_code_blocks_repeat:
  assumes "handleCommand 0 t0 m0 = (True, hs0, m1)"
      and "handleCommands inputs m1 = (out, m2)"
      and "\<forall>(c, r, hs) \<in> set out. r \<longrightarrow> c = 0 \<or> c = 0xFFFFFFFF"
  shows "lastCode IRCommandManager_init = 0 \<and> lastCode m1 = 0 \<and>
         (\<forall>(c, r, hs) \<in> set out. c = 0xFFFFFFFF \<longrightarrow> \<not> r \<and> hs = []) \<and>
         handleCommand 0xFFFFFFFF t m2 = (False, [], m2)"
proof -
  have l1: "lastCode m1 = 0"
    using handleCommand_True [OF assms(1)] by auto
  from handleCommands_zero [OF l1 assms(2) assms(3)]
  have l2: "lastCode m2 = 0" and
    reps: "\<forall>(c, r, hs) \<in> set out. c = 0xFFFFFFFF \<longrightarrow> \<not> r \<and> hs = []" by blast+
  have "handleCommand 0xFFFFFFFF t m2 = (False, [], m2)"
    using l2 by (simp add: handleCommand_def)
  with l1 reps show ?thesis by (simp add: IRCommandManager_init_def)
qed

theorem zero_code_blocks_repeat_witness:
  "handleCommand 0xFFFFFFFF 99999
     \<lparr>commandMappings = [\<lparr>code = 0, handler = Some 7, description = ''zero''\<rparr>],
      lastCode = 0, lastCommandTime = 7000\<rparr>
   = (False, [], \<lparr>commandMappings = [\<lparr>code = 0, handler = Some 7, description = ''zero''\<rparr>],
      lastCode = 0, lastCommandTime = 7000\<rparr>)"
proof -
  let ?m0 = "addCommand 0 (Some 7) ''zero'' IRCommandManager_init"
  let ?m1 = "\<lparr>commandMappings = [\<lparr>code = 0, handler = Some 7, description = ''zero''\<rparr>],
              lastCode = 0, lastCommandTime = 1000\<rparr>"
  let ?m2 = "\<lparr>commandMappings = [\<lparr>code = 0, handler = Some 7, description = ''zero''\<rparr>],
              lastCode = 0, lastCommandTime = 7000\<rparr>"
  let ?inputs = "[(0xFFFFFFFF, 5000), (5, 6000), (0, 7000), (0xFFFFFFFF, 9000)] :: (uint32 \<times> uint32) list"
  let ?out = "[(0xFFFFFFFF, False, []), (5, False, []), (0, True, [7]), (0xFFFFFFFF, False, [])]
                :: (uint32 \<times> bool \<times> callback list) list"
  have first: "handleCommand 0 1000 ?m0 = (True, [7], ?m1)"
    by (simp add: handleCommand_def addCommand_def IRCommandManager_init_def invoke_def)
  have run: "handleCommands ?inputs ?m1 = (?out, ?m2)"
    by (simp add: handleCommand_def invoke_def)
  have quiet: "\<forall>(c, r, hs) \<in> set ?out. r \<longrightarrow> c = 0 \<or> c = 0xFFFFFFFF"
    by simp
  from zero_code_blocks_repeat [OF first run quiet, of 99999] show ?thesis by simp
qed

section \<open>Properties of widgets and screens\<close>

subsection \<open>Buttons\<close>

lemma invoke_mem: "f \<in> set (invoke cb) \<longleftrightarrow> cb = Some f"
  by (cases cb) (auto simp: invoke_def)

text \<open>
  C7. The button of \<open>refactor2\<close> invokes its callback exactly when it is focused, the code
  is OK and a callback is set; unfocused, it invokes nothing for any code. The button of
  the original header does not look at its focus: it invokes its callback exactly when
  the event is an infrared button event with value OK and a callback is set. There the
  screen does the gating: whatever \<open>Screen::handleInput\<close> invokes is the callback of the
  button at the focus index, on an OK event.
\<close>

theorem Button_handleInput_gate:
  "(f \<in> set (Button_handleInput irCode focus cb) \<longleftrightarrow>
      focus \<and> irCode = IRCodes_OK \<and> cb = Some f)
   \<and> Button_handleInput irCode False cb = []
   \<and> (f \<in> set (Button_handleInput_orig event focus cb) \<longleftrightarrow>
      ev_type event = IR_BUTTON \<and> ev_value event = IRCodes_OK \<and> cb = Some f)
   \<and> (handleInput_orig event s = Inr (invoked, s') \<and> f \<in> set invoked \<longrightarrow>
      focusedWidgetIndex s < length (widgets s) \<and>
      (\<exists>l. kind (widgets s ! focusedWidgetIndex s) = Button l (Some f)) \<and>
      ev_type event = IR_BUTTON \<and> ev_value event = IRCodes_OK)"
proof -
  have new: "f \<in> set (Button_handleInput irCode focus cb) \<longleftrightarrow>
      focus \<and> irCode = IRCodes_OK \<and> cb = Some f"
    by (simp add: Button_handleInput_def invoke_mem)
  have unfocused: "Button_handleInput irCode False cb = []"
    by (simp add: Button_handleInput_def)
  have orig: "f \<in> set (Button_handleInput_orig event focus cb) \<longleftrightarrow>
      ev_type event = IR_BUTTON \<and> ev_value event = IRCodes_OK \<and> cb = Some f"
    by (simp add: Button_handleInput_orig_def IRCodes_OK_def invoke_mem)
  have routed: "handleInput_orig event s = Inr (invoked, s') \<and> f \<in> set invoked \<longrightarrow>
      focusedWidgetIndex s < length (widgets s) \<and>
      (\<exists>l. kind (widgets s ! focusedWidgetIndex s) = Button l (Some f)) \<and>
      ev_type event = IR_BUTTON \<and> ev_value event = IRCodes_OK"
    by (auto simp: handleInput_orig_def Widget_handleInput_orig_def
        Button_handleInput_orig_def IRCodes_OK_def invoke_mem
        split: if_splits sum.splits WidgetKind.splits)
  from new unfocused orig routed show ?thesis by blast
qed

theorem Button_handleInput_gate_witness:
  "7 \<in> set (Button_handleInput IRCodes_OK True (Some 7))
   \<and> 7 \<notin> set (Button_handleInput IRCodes_UP True (Some 7))
   \<and> Button_handleInput IRCodes_OK False (Some 7) = []
   \<and> 7 \<in> set (Button_handleInput_orig \<lparr>ev_type = IR_BUTTON, ev_value = 0xFF02FD\<rparr> False (Some 7))
   \<and> kind ([setFocus False (Widget_new 0 0 128 10 (Label ''A'' True)),
             setFocus True (Widget_new 14 54 100 10 (Button ''B'' (Some 7)))] ! 1)
       = Button ''B'' (Some 7)"
proof -
  let ?ok = "\<lparr>ev_type = IR_BUTTON, ev_value = 0xFF02FD\<rparr>"
  let ?s = "\<lparr>widgets = [setFocus False (Widget_new 0 0 128 10 (Label ''A'' True)),
                    setFocus True (Widget_new 14 54 100 10 (Button ''B'' (Some 7)))],
        focusedWidgetIndex = 1\<rparr>"
  have ran: "handleInput_orig ?ok ?s = Inr ([7], ?s) \<and> 7 \<in> set [7::nat]"
    by (simp add: handleInput_orig_def Widget_handleInput_orig_def Button_handleInput_orig_def
        invoke_def setFocus_def Widget_new_def)
  from Button_handleInput_gate [of 7 IRCodes_OK True "Some 7" ?ok ?s "[7]" ?s]
       Button_handleInput_gate [of 7 IRCodes_UP True "Some 7" ?ok ?s "[7]" ?s]
       Button_handleInput_gate [of 7 IRCodes_OK False "Some 7" ?ok ?s "[7]" ?s] ran
  show ?thesis
    by (simp add: IRCodes_OK_def IRCodes_UP_def setFocus_def Widget_new_def)
qed

text \<open>
  The original button, not focused, handed an OK event: the callback runs.
\<close>

theorem Button_handleInput_gate_counterexample:
  "focused (Widget_new 14 54 100 10 (Button ''Start Charging'' (Some 7))) = False
   \<and> Widget_handleInput_orig \<lparr>ev_type = IR_BUTTON, ev_value = 0xFF02FD\<rparr>
        (Widget_new 14 54 100 10 (Button ''Start Charging'' (Some 7))) = [7]"
  by (simp add: Widget_new_def Widget_handleInput_orig_def Button_handleInput_orig_def invoke_def)

subsection \<open>Switching screens\<close>

text \<open>
  C8. In \<open>refactor\<close>, \<open>setScreen\<close> on an index below the number of screens makes it the
  current index and clears the display; the original does the same on a slot that is in
  range and filled. On any other index or slot both leave the manager, display included,
  as it is. In \<open>refactor2\<close>, \<open>setScreen\<close> on an index below the number of screens makes it
  the current index and does not touch the display; on any other index it changes
  nothing.
\<close>

theorem setScreen_switch:
  "(index < length (screens m) \<longrightarrow>
      setScreen index m = m\<lparr>currentScreenIndex := index, display := display m @ [ClearDisplay]\<rparr>)
   \<and> (\<not> index < length (screens m) \<longrightarrow> setScreen index m = m)
   \<and> (index < length (screens_orig mo) \<and> screens_orig mo ! index \<noteq> None \<longrightarrow>
      setScreen_orig index mo
        = mo\<lparr>currentScreenType := index, display_orig := display_orig mo @ [ClearDisplay]\<rparr>)
   \<and> (\<not> (index < length (screens_orig mo) \<and> screens_orig mo ! index \<noteq> None) \<longrightarrow>
      setScreen_orig index mo = mo)
   \<and> (index < length (screens m) \<longrightarrow>
      setScreen_refactor2 index m = m\<lparr>currentScreenIndex := index\<rparr>)
   \<and> (\<not> index < length (screens m) \<longrightarrow> setScreen_refactor2 index m = m)"
  by (auto simp: setScreen_def setScreen_orig_def setScreen_refactor2_def)

theorem setScreen_switch_witness:
  "setScreen 1 \<lparr>display = [Display], irManager = IRCommandManager_init,
                 screens = [Screen_init, Screen_init], currentScreenIndex = 0\<rparr>
     = \<lparr>display = [Display, ClearDisplay], irManager = IRCommandManager_init,
        screens = [Screen_init, Screen_init], currentScreenIndex = 1\<rparr>
   \<and> setScreen 2 \<lparr>display = [Display], irManager = IRCommandManager_init,
                 screens = [Screen_init, Screen_init], currentScreenIndex = 0\<rparr>
     = \<lparr>display = [Display], irManager = IRCommandManager_init,
        screens = [Screen_init, Screen_init], currentScreenIndex = 0\<rparr>
   \<and> setScreen_refactor2 2 \<lparr>display = [Display], irManager = IRCommandManager_init,
                 screens = [Screen_init, Screen_init], currentScreenIndex = 0\<rparr>
     = \<lparr>display = [Display], irManager = IRCommandManager_init,
        screens = [Screen_init, Screen_init], currentScreenIndex = 0\<rparr>
   \<and> setScreen_orig 1 \<lparr>display_orig = [Display], screens_orig = [None, Some Screen_init],
                 currentScreenType = 0, lastUpdateTime = 0\<rparr>
     = \<lparr>display_orig = [Display, ClearDisplay], screens_orig = [None, Some Screen_init],
                 currentScreenType = 1, lastUpdateTime = 0\<rparr>
   \<and> setScreen_orig 0 \<lparr>display_orig = [Display], screens_orig = [None, Some Screen_init],
                 currentScreenType = 1, lastUpdateTime = 0\<rparr>
     = \<lparr>display_orig = [Display], screens_orig = [None, Some Screen_init],
                 currentScreenType = 1, lastUpdateTime = 0\<rparr>"
  using setScreen_switch [of 1 "\<lparr>display = [Display], irManager = IRCommandManager_init,
                 screens = [Screen_init, Screen_init], currentScreenIndex = 0\<rparr>"
          "\<lparr>display_orig = [Display], screens_orig = [None, Some Screen_init],
                 currentScreenType = 0, lastUpdateTime = 0\<rparr>"]
        setScreen_switch [of 2 "\<lparr>display = [Display], irManager = IRCommandManager_init,
                 screens = [Screen_init, Screen_init], currentScreenIndex = 0\<rparr>"
          "\<lparr>display_orig = [Display], screens_orig = [None, Some Screen_init],
                 currentScreenType = 0, lastUpdateTime = 0\<rparr>"]
        setScreen_switch [of 0 "\<lparr>display = [Display], irManager = IRCommandManager_init,
                 screens = [Screen_init, Screen_init], currentScreenIndex = 0\<rparr>"
          "\<lparr>display_orig = [Display], screens_orig = [None, Some Screen_init],
                 currentScreenType = 1, lastUpdateTime = 0\<rparr>"]
  by simp

text \<open>
  \<open>refactor2\<close> on a populated slot: the screen is switched, and the display has received
  no call.
\<close>

theorem setScreen_switch_counterexample:
  "(1::nat) < length (screens \<lparr>display = [Display], irManager = IRCommandManager_init,
        screens = [Screen_init, Screen_init], currentScreenIndex = 0\<rparr>)
   \<and> setScreen_refactor2 1 \<lparr>display = [Display], irManager = IRCommandManager_init,
        screens = [Screen_init, Screen_init], currentScreenIndex = 0\<rparr>
     = \<lparr>display = [Display], irManager = IRCommandManager_init,
        screens = [Screen_init, Screen_init], currentScreenIndex = 1\<rparr>"
  by (simp add: setScreen_refactor2_def)

subsection \<open>Input to a screen\<close>




subsection \<open>Drawing\<close>

lemma drawWidgets_eq:
  "drawWidgets ws d =
     (map (\<lambda>w. if isDirty w then clearDirty w else w) ws, d @ map DrawWidget (filter isDirty ws))"
  by (induction ws arbitrary: d) (simp_all add: Widget_draw_def)

lemma drawWidgets_clean:
  "w \<in> set (map (\<lambda>w. if isDirty w then clearDirty w else w) ws) \<Longrightarrow> \<not> isDirty w"
  by (induction ws) (auto simp: isDirty_def clearDirty_def split: if_splits)

lemma drawWidgets_again:
  "drawWidgets (map (\<lambda>w. if isDirty w then clearDirty w else w) ws) d
     = (map (\<lambda>w. if isDirty w then clearDirty w else w) ws, d)"
  by (induction ws) (simp_all add: isDirty_def clearDirty_def)

text \<open>
  C4. \<open>draw\<close> sends to the display one drawing per dirty widget, in the order of the
  vector, and nothing else; it clears the dirty flag of exactly those widgets and leaves
  the rest of the screen alone. Afterwards no widget is dirty, and drawing the resulting
  screen again, on any display, draws nothing and changes nothing.
\<close>

theorem draw_dirty_only:
  "draw s d = (s\<lparr>widgets := map (\<lambda>w. if isDirty w then clearDirty w else w) (widgets s)\<rparr>,
               d @ map DrawWidget (filter isDirty (widgets s)))
   \<and> (\<forall>w \<in> set (widgets (fst (draw s d))). \<not> isDirty w)
   \<and> draw (fst (draw s d)) d2 = (fst (draw s d), d2)"
proof -
  let ?ws = "map (\<lambda>w. if isDirty w then clearDirty w else w) (widgets s)"
  have eq: "draw s d = (s\<lparr>widgets := ?ws\<rparr>, d @ map DrawWidget (filter isDirty (widgets s)))"
    by (simp add: draw_def drawWidgets_eq)
  have sel: "widgets (s\<lparr>widgets := ?ws\<rparr>) = ?ws"
    by simp
  have clean: "\<forall>w \<in> set (widgets (s\<lparr>widgets := ?ws\<rparr>)). \<not> isDirty w"
    unfolding sel using drawWidgets_clean by blast
  have again: "draw (s\<lparr>widgets := ?ws\<rparr>) d2 = (s\<lparr>widgets := ?ws\<rparr>, d2)"
    by (simp add: draw_def drawWidgets_again)
  have fst: "fst (draw s d) = s\<lparr>widgets := ?ws\<rparr>"
    by (simp only: eq fst_conv)
  show ?thesis
    unfolding fst using eq clean again by blast
qed

theorem draw_dirty_only_witness:
  "draw \<lparr>widgets = [Widget_new 0 0 128 10 (Label ''NiMH Charger'' True),
                     clearDirty (Widget_new 0 12 128 10 (Label ''Status: Idle'' False)),
                     Widget_new 14 54 100 10 (Button ''Start Charging'' (Some 7))],
          focusedWidgetIndex = 0\<rparr> [ClearDisplay]
     = (\<lparr>widgets = [clearDirty (Widget_new 0 0 128 10 (Label ''NiMH Charger'' True)),
                     clearDirty (Widget_new 0 12 128 10 (Label ''Status: Idle'' False)),
                     clearDirty (Widget_new 14 54 100 10 (Button ''Start Charging'' (Some 7)))],
          focusedWidgetIndex = 0\<rparr>,
        [ClearDisplay,
         DrawWidget (Widget_new 0 0 128 10 (Label ''NiMH Charger'' True)),
         DrawWidget (Widget_new 14 54 100 10 (Button ''Start Charging'' (Some 7)))])
   \<and> draw \<lparr>widgets = [clearDirty (Widget_new 0 0 128 10 (Label ''NiMH Charger'' True)),
                     clearDirty (Widget_new 0 12 128 10 (Label ''Status: Idle'' False)),
                     clearDirty (Widget_new 14 54 100 10 (Button ''Start Charging'' (Some 7)))],
          focusedWidgetIndex = 0\<rparr> [ClearDisplay]
     = (\<lparr>widgets = [clearDirty (Widget_new 0 0 128 10 (Label ''NiMH Charger'' True)),
                     clearDirty (Widget_new 0 12 128 10 (Label ''Status: Idle'' False)),
                     clearDirty (Widget_new 14 54 100 10 (Button ''Start Charging'' (Some 7)))],
          focusedWidgetIndex = 0\<rparr>, [ClearDisplay])"
proof -
  let ?s = "\<lparr>widgets = [Widget_new 0 0 128 10 (Label ''NiMH Charger'' True),
                     clearDirty (Widget_new 0 12 128 10 (Label ''Status: Idle'' False)),
                     Widget_new 14 54 100 10 (Button ''Start Charging'' (Some 7))],
          focusedWidgetIndex = 0\<rparr>"
  let ?s' = "\<lparr>widgets = [clearDirty (Widget_new 0 0 128 10 (Label ''NiMH Charger'' True)),
                     clearDirty (Widget_new 0 12 128 10 (Label ''Status: Idle'' False)),
                     clearDirty (Widget_new 14 54 100 10 (Button ''Start Charging'' (Some 7)))],
          focusedWidgetIndex = 0\<rparr>"
  note all = draw_dirty_only [of ?s "[ClearDisplay]" "[ClearDisplay]"]
  have once: "draw ?s [ClearDisplay] = (?s',
        [ClearDisplay,
         DrawWidget (Widget_new 0 0 128 10 (Label ''NiMH Charger'' True)),
         DrawWidget (Widget_new 14 54 100 10 (Button ''Start Charging'' (Some 7)))])"
    using all [THEN conjunct1] by (simp add: isDirty_def clearDirty_def Widget_new_def)
  have "draw (fst (draw ?s [ClearDisplay])) [ClearDisplay]
          = (fst (draw ?s [ClearDisplay]), [ClearDisplay])"
    using all [THEN conjunct2, THEN conjunct2] .
  then have twice: "draw ?s' [ClearDisplay] = (?s', [ClearDisplay])"
    by (simp only: once fst_conv)
  from once twice show ?thesis
    by (rule conjI)
qed

subsection \<open>Moving the focus\<close>

lemma size_t_of_int_1: "size_t_of_int 1 = 1"
  by (simp add: size_t_of_int_def)

lemma size_t_of_int_m1: "size_t_of_int (- 1) = 4294967295"
  by (simp add: size_t_of_int_def)

lemma size_t_add_small: "a + b < 4294967296 \<Longrightarrow> size_t_add a b = a + b"
  by (simp add: size_t_add_def)

lemma spec_up: "0 < n \<Longrightarrow> nat ((int i + 1) mod int n) = (i + 1) mod n"
proof -
  have "int i + 1 = int (i + 1)" by simp
  then have "(int i + 1) mod int n = int ((i + 1) mod n)"
    by (simp only: zmod_int)
  then show ?thesis by simp
qed

lemma spec_down: 
  assumes "0 < n" shows "nat ((int i - 1) mod int n) = (i + n - 1) mod n"
proof -
  have "(int i - 1) mod int n = (int i - 1 + int n) mod int n"
    by simp
  also have "int i - 1 + int n = int (i + n - 1)"
    using assms by simp
  also have "int (i + n - 1) mod int n = int ((i + n - 1) mod n)"
    by (simp only: zmod_int)
  finally show ?thesis by simp
qed

lemma size_t_step_up:
  assumes "i < n" and "n \<le> vector_max_size"
  shows "size_t_add (size_t_add i n) (size_t_of_int 1) mod n = nat ((int i + 1) mod int n)"
proof -
  have small: "i + n + 1 < 4294967296"
    using assms by (simp add: vector_max_size_def)
  then have "size_t_add (size_t_add i n) 1 = i + n + 1"
    by (simp add: size_t_add_small)
  moreover have "i + n + 1 = (i + 1) + n"
    by simp
  then have "(i + n + 1) mod n = (i + 1) mod n"
    by (simp only: mod_add_self2)
  ultimately show ?thesis
    using assms(1) by (simp add: size_t_of_int_1 spec_up)
qed

lemma size_t_step_down:
  assumes "i < n" and "n \<le> vector_max_size"
  shows "size_t_add (size_t_add i n) (size_t_of_int (- 1)) mod n = nat ((int i - 1) mod int n)"
proof -
  have pos: "0 < n" using assms(1) by simp
  have small: "i + n < 4294967296"
    using assms by (simp add: vector_max_size_def)
  then have inner: "size_t_add i n = i + n"
    by (simp add: size_t_add_small)
  have "i + n + 4294967295 = (i + n - 1) + 4294967296"
    using pos by simp
  then have "(i + n + 4294967295) mod 4294967296 = (i + n - 1) mod 4294967296"
    by (simp only: mod_add_self2)
  also have "\<dots> = i + n - 1"
    using small by simp
  finally have "size_t_add (i + n) 4294967295 = i + n - 1"
    by (simp add: size_t_add_def)
  then show ?thesis
    using pos by (simp add: inner size_t_of_int_m1 spec_down)
qed

lemma orig_step_up:
  assumes "i < n" and "n \<le> vector_max_size"
  shows "size_t_add i 1 mod n = nat ((int i + 1) mod int n)"
proof -
  have "i + 1 < 4294967296"
    using assms by (simp add: vector_max_size_def)
  then have "size_t_add i 1 = i + 1"
    by (simp add: size_t_add_small)
  then show ?thesis
    using assms(1) by (simp add: spec_up)
qed

lemma orig_step_down:
  assumes "i < n" and "n \<le> vector_max_size"
  shows "size_t_sub (size_t_add i n) 1 mod n = nat ((int i - 1) mod int n)"
proof -
  have pos: "0 < n" using assms(1) by simp
  have small: "i + n < 4294967296"
    using assms by (simp add: vector_max_size_def)
  then have inner: "size_t_add i n = i + n"
    by (simp add: size_t_add_small)
  have diff: "int (i + n) - int 1 = int (i + n - 1)"
    using pos by simp
  have "int (i + n - 1) < 2 ^ 32"
    using small by simp
  then have fits: "int (i + n - 1) mod 2 ^ 32 = int (i + n - 1)"
    by (simp only: mod_pos_pos_trivial of_nat_0_le_iff)
  have "size_t_sub (i + n) 1 = nat (int (i + n - 1))"
    by (simp only: size_t_sub_def diff fits)
  then have "size_t_sub (i + n) 1 = i + n - 1"
    by (simp only: nat_int)
  then show ?thesis
    using pos by (simp add: inner spec_down)
qed

text \<open>
  C5. On a screen with \<open>n > 0\<close> widgets whose focus index \<open>i\<close> is inside the vector (and
  the vector within its capacity), \<open>changeFocus d\<close> for \<open>d = 1\<close> or \<open>d = -1\<close>, in \<open>refactor\<close>
  and in the original alike, unfocuses the widget at \<open>i\<close>, sets the focus index to
  \<open>(i + d) mod n\<close> (the mathematical residue, so both ends wrap) and focuses the widget
  there. On an empty screen it returns the screen unchanged.
\<close>

theorem changeFocus_wraps:
  assumes "widgets s \<noteq> []"
      and "focusedWidgetIndex s < length (widgets s)"
      and "length (widgets s) \<le> vector_max_size"
      and "d = 1 \<or> d = - 1"
  shows "(let i = focusedWidgetIndex s;
              j = nat ((int i + d) mod int (length (widgets s)));
              ws = (widgets s)[i := setFocus False (widgets s ! i)];
              s' = \<lparr>widgets = ws[j := setFocus True (ws ! j)], focusedWidgetIndex = j\<rparr>
          in changeFocus d s = Inr s' \<and> changeFocus_orig d s = Inr s'
             \<and> j < length (widgets s)
             \<and> focused (widgets s' ! j) \<and> (j \<noteq> i \<longrightarrow> \<not> focused (widgets s' ! i)))
         \<and> (widgets e = [] \<longrightarrow> changeFocus d e = Inr e \<and> changeFocus_orig d e = Inr e)"
proof -
  define i where "i = focusedWidgetIndex s"
  define n where "n = length (widgets s)"
  define j where "j = nat ((int i + d) mod int n)"
  define ws where "ws = (widgets s)[i := setFocus False (widgets s ! i)]"
  define s' where "s' = \<lparr>widgets = ws[j := setFocus True (ws ! j)], focusedWidgetIndex = j\<rparr>"
  have i: "i < n" and n: "n \<le> vector_max_size"
    using assms(2,3) by (simp_all add: i_def n_def)
  have len: "length ws = n"
    by (simp add: ws_def n_def)
  have "0 < int n" using i by simp
  then have "(int i + d) mod int n < int n"
    by (rule pos_mod_bound)
  moreover have "0 \<le> (int i + d) mod int n"
    using \<open>0 < int n\<close> by (rule pos_mod_sign)
  ultimately have j: "j < n"
    unfolding j_def by linarith
  have new: "size_t_add (size_t_add i n) (size_t_of_int d) mod n = j"
    using assms(4) size_t_step_up [OF i n] size_t_step_down [OF i n]
    by (auto simp: j_def)
  have old: "0 < d \<longrightarrow> size_t_add i 1 mod n = j"
      "\<not> 0 < d \<longrightarrow> size_t_sub (size_t_add i n) 1 mod n = j"
    using assms(4) orig_step_up [OF i n] orig_step_down [OF i n]
    by (auto simp: j_def)
  have cf: "changeFocus d s = Inr s'"
    using assms(1) i new
    by (simp add: changeFocus_def Let_def i_def [symmetric] ws_def [symmetric] len
        n_def [symmetric] s'_def)
  have cfo: "changeFocus_orig d s = Inr s'"
    using assms(1) i old
    by (simp add: changeFocus_orig_def Let_def i_def [symmetric] ws_def [symmetric] len
        n_def [symmetric] s'_def del: One_nat_def)
  have fj: "focused (widgets s' ! j)"
    using j len by (simp add: s'_def setFocus_def)
  have fi: "j \<noteq> i \<longrightarrow> \<not> focused (widgets s' ! i)"
    using i by (simp add: s'_def ws_def n_def setFocus_def)
  have empty: "widgets e = [] \<longrightarrow> changeFocus d e = Inr e \<and> changeFocus_orig d e = Inr e"
    by (simp add: changeFocus_def changeFocus_orig_def)
  have "changeFocus d s = Inr s' \<and> changeFocus_orig d s = Inr s' \<and> j < n
          \<and> focused (widgets s' ! j) \<and> (j \<noteq> i \<longrightarrow> \<not> focused (widgets s' ! i))"
    using cf cfo j fj fi by blast
  then show ?thesis
    unfolding Let_def s'_def ws_def j_def n_def i_def using empty by blast
qed

theorem changeFocus_wraps_witness:
  "changeFocus 1 \<lparr>widgets = [Widget_new 0 0 128 10 (Label ''A'' True),
                              Widget_new 0 12 128 10 (Label ''B'' False),
                              setFocus True (Widget_new 14 54 100 10 (Button ''C'' (Some 7)))],
                   focusedWidgetIndex = 2\<rparr>
     = Inr \<lparr>widgets = [setFocus True (Widget_new 0 0 128 10 (Label ''A'' True)),
                         Widget_new 0 12 128 10 (Label ''B'' False),
                         setFocus False (Widget_new 14 54 100 10 (Button ''C'' (Some 7)))],
              focusedWidgetIndex = 0\<rparr>
   \<and> changeFocus_orig (- 1) \<lparr>widgets = [setFocus True (Widget_new 0 0 128 10 (Label ''A'' True)),
                              Widget_new 0 12 128 10 (Label ''B'' False),
                              Widget_new 14 54 100 10 (Button ''C'' (Some 7))],
                   focusedWidgetIndex = 0\<rparr>
     = Inr \<lparr>widgets = [setFocus False (Widget_new 0 0 128 10 (Label ''A'' True)),
                         Widget_new 0 12 128 10 (Label ''B'' False),
                         setFocus True (Widget_new 14 54 100 10 (Button ''C'' (Some 7)))],
              focusedWidgetIndex = 2\<rparr>
   \<and> changeFocus (- 1) Screen_init = Inr Screen_init"
proof -
  let ?last = "\<lparr>widgets = [Widget_new 0 0 128 10 (Label ''A'' True),
                              Widget_new 0 12 128 10 (Label ''B'' False),
                              setFocus True (Widget_new 14 54 100 10 (Button ''C'' (Some 7)))],
                   focusedWidgetIndex = 2\<rparr>"
  let ?first = "\<lparr>widgets = [setFocus True (Widget_new 0 0 128 10 (Label ''A'' True)),
                              Widget_new 0 12 128 10 (Label ''B'' False),
                              Widget_new 14 54 100 10 (Button ''C'' (Some 7))],
                   focusedWidgetIndex = 0\<rparr>"
  have ne: "widgets ?last \<noteq> []" "widgets ?first \<noteq> []"
    by simp_all
  have inb: "focusedWidgetIndex ?last < length (widgets ?last)"
      "focusedWidgetIndex ?first < length (widgets ?first)"
    by simp_all
  have cap: "length (widgets ?last) \<le> vector_max_size"
      "length (widgets ?first) \<le> vector_max_size"
    by (simp_all add: vector_max_size_def)
  have dirs: "(1::int) = 1 \<or> (1::int) = - 1" "(- 1::int) = 1 \<or> (- 1::int) = - 1"
    by simp_all
  have empty: "widgets Screen_init = []"
    by (simp add: Screen_init_def)
  from changeFocus_wraps [OF ne(1) inb(1) cap(1) dirs(1), of Screen_init]
       changeFocus_wraps [OF ne(2) inb(2) cap(2) dirs(2), of Screen_init] empty
  show ?thesis
    by (simp add: Let_def setFocus_def Widget_new_def)
qed

subsection \<open>What every sequence of calls preserves\<close>

lemma index_inv_init: "index_inv Screen_init"
  by (simp add: index_inv_def Screen_init_def)

lemma focus_inv_init: "focus_inv Screen_init"
  by (simp add: focus_inv_def Screen_init_def)

lemma addWidget_index:
  assumes "index_inv s" and "addWidget w s = Inr s'"
  shows "index_inv s'"
  using assms
  by (auto simp: addWidget_def index_inv_def Let_def split: if_splits)

lemma addWidget_not_OutOfRange: "addWidget w s \<noteq> Inl OutOfRange"
  by (simp add: addWidget_def Let_def)

lemma changeFocus_index:
  assumes "index_inv s"
  shows "\<exists>s'. changeFocus d s = Inr s' \<and> index_inv s'"
proof (cases "widgets s = []")
  case True
  with assms show ?thesis by (simp add: changeFocus_def)
next
  case False
  with assms have i: "focusedWidgetIndex s < length (widgets s)"
    and n: "length (widgets s) \<le> vector_max_size"
    by (simp_all add: index_inv_def)
  define ws where "ws = (widgets s)[focusedWidgetIndex s :=
                     setFocus False (widgets s ! focusedWidgetIndex s)]"
  define j where "j = size_t_add (size_t_add (focusedWidgetIndex s) (length ws))
                  (size_t_of_int d) mod length ws"
  have len: "length ws = length (widgets s)"
    by (simp add: ws_def)
  have "0 < length ws"
    using i by (simp only: len)
  then have j: "j < length ws"
    unfolding j_def by (rule mod_less_divisor)
  have ne: "ws[j := setFocus True (ws ! j)] \<noteq> []"
    using False len by auto
  have step: "changeFocus d s
      = Inr \<lparr>widgets = ws[j := setFocus True (ws ! j)], focusedWidgetIndex = j\<rparr>"
    using False i by (simp add: changeFocus_def Let_def ws_def [symmetric] j_def [symmetric])
  have "index_inv \<lparr>widgets = ws[j := setFocus True (ws ! j)], focusedWidgetIndex = j\<rparr>"
    using ne j n len by (simp add: index_inv_def)
  with step show ?thesis by simp
qed

lemma handleInput_index:
  assumes "index_inv s"
  shows "\<exists>invoked. handleInput irCode s = Inr (invoked, s)"
  using assms by (simp add: handleInput_def index_inv_def)

lemma applyOp_index:
  assumes "index_inv s"
  shows "applyOp operation s \<noteq> Inl OutOfRange \<and>
         (\<forall>s'. applyOp operation s = Inr s' \<longrightarrow> index_inv s')"
proof (cases operation)
  case (AddWidget w)
  then show ?thesis
    using addWidget_index [OF assms] addWidget_not_OutOfRange by auto
next
  case NavigateUp
  then show ?thesis
    using changeFocus_index [OF assms, of "- 1"] by (auto simp: navigateUp_def)
next
  case NavigateDown
  then show ?thesis
    using changeFocus_index [OF assms, of 1] by (auto simp: navigateDown_def)
next
  case (Navigate d)
  then show ?thesis
    using changeFocus_index [OF assms, of d] by (auto simp: navigate_def)
next
  case (HandleInput c)
  then show ?thesis
    using handleInput_index [OF assms, of c] assms by auto
qed

lemma runOps_index:
  "index_inv s \<Longrightarrow>
     runOps ops s \<noteq> Inl OutOfRange \<and> (\<forall>s'. runOps ops s = Inr s' \<longrightarrow> index_inv s')"
proof (induction ops arbitrary: s)
  case Nil
  then show ?case by simp
next
  case (Cons operation ops)
  show ?case
  proof (cases "applyOp operation s")
    case (Inl e)
    with applyOp_index [OF Cons.prems, of operation] show ?thesis by simp
  next
    case (Inr s1)
    with applyOp_index [OF Cons.prems, of operation] have "index_inv s1" by simp
    from Cons.IH [OF this] Inr show ?thesis by simp
  qed
qed

lemma addWidget_focus:
  assumes "index_inv s" and "focus_inv s" and "\<not> focused w" and "addWidget w s = Inr s'"
  shows "focus_inv s'"
proof (cases "widgets s = []")
  case True
  with assms show ?thesis
    by (auto simp: addWidget_def index_inv_def focus_inv_def Let_def setFocus_def
        split: if_splits)
next
  case False
  with assms(1) have i: "focusedWidgetIndex s < length (widgets s)"
    by (simp add: index_inv_def)
  from False assms(4) have s': "s' = s\<lparr>widgets := widgets s @ [w]\<rparr>"
    by (auto simp: addWidget_def Let_def split: if_splits)
  show ?thesis
    unfolding focus_inv_def
  proof (intro allI impI)
    fix k assume "k < length (widgets s')"
    then have "k < length (widgets s) \<or> k = length (widgets s)"
      by (auto simp: s')
    then show "focused (widgets s' ! k) \<longleftrightarrow> k = focusedWidgetIndex s'"
    proof
      assume "k < length (widgets s)"
      then show ?thesis
        using assms(2) by (simp add: s' focus_inv_def nth_append)
    next
      assume "k = length (widgets s)"
      then show ?thesis
        using assms(3) i by (simp add: s')
    qed
  qed
qed

lemma changeFocus_focus:
  assumes "index_inv s" and "focus_inv s" and "changeFocus d s = Inr s'"
  shows "focus_inv s'"
proof (cases "widgets s = []")
  case True
  with assms show ?thesis by (simp add: changeFocus_def)
next
  case False
  with assms(1) have i: "focusedWidgetIndex s < length (widgets s)"
    by (simp add: index_inv_def)
  define ws where "ws = (widgets s)[focusedWidgetIndex s :=
                     setFocus False (widgets s ! focusedWidgetIndex s)]"
  define j where "j = size_t_add (size_t_add (focusedWidgetIndex s) (length ws))
                  (size_t_of_int d) mod length ws"
  have len: "length ws = length (widgets s)"
    by (simp add: ws_def)
  have "0 < length ws"
    using i by (simp only: len)
  then have j: "j < length ws"
    unfolding j_def by (rule mod_less_divisor)
  from False i assms(3) have s': "s' = \<lparr>widgets = ws[j := setFocus True (ws ! j)], focusedWidgetIndex = j\<rparr>"
    by (simp add: changeFocus_def Let_def ws_def [symmetric] j_def [symmetric])
  show ?thesis
    unfolding focus_inv_def
  proof (intro allI impI)
    fix k assume "k < length (widgets s')"
    then have k: "k < length (widgets s)"
      by (simp add: s' len)
    show "focused (widgets s' ! k) \<longleftrightarrow> k = focusedWidgetIndex s'"
    proof (cases "k = j")
      case True
      then show ?thesis
        using j by (simp add: s' setFocus_def)
    next
      case kj: False
      show ?thesis
      proof (cases "k = focusedWidgetIndex s")
        case True
        then show ?thesis
          using kj i by (simp add: s' ws_def setFocus_def)
      next
        case False
        then show ?thesis
          using kj k assms(2) by (simp add: s' ws_def focus_inv_def)
      qed
    qed
  qed
qed

lemma applyOp_focus:
  assumes "index_inv s" and "focus_inv s"
      and "\<forall>w. operation = AddWidget w \<longrightarrow> \<not> focused w"
      and "applyOp operation s = Inr s'"
  shows "focus_inv s'"
proof (cases operation)
  case (AddWidget w)
  then show ?thesis
    using addWidget_focus [OF assms(1,2), of w s'] assms(3,4) by simp
next
  case NavigateUp
  then show ?thesis
    using changeFocus_focus [OF assms(1,2), of "- 1" s'] assms(4) by (simp add: navigateUp_def)
next
  case NavigateDown
  then show ?thesis
    using changeFocus_focus [OF assms(1,2), of 1 s'] assms(4) by (simp add: navigateDown_def)
next
  case (Navigate d)
  then show ?thesis
    using changeFocus_focus [OF assms(1,2), of d s'] assms(4) by (simp add: navigate_def)
next
  case (HandleInput c)
  then show ?thesis
    using handleInput_index [OF assms(1), of c] assms(2,4) by auto
qed

lemma runOps_focus:
  "index_inv s \<Longrightarrow> focus_inv s \<Longrightarrow> \<forall>w. AddWidget w \<in> set ops \<longrightarrow> \<not> focused w \<Longrightarrow>
     runOps ops s = Inr s' \<Longrightarrow> focus_inv s'"
proof (induction ops arbitrary: s)
  case Nil
  then show ?case by simp
next
  case (Cons operation ops)
  from Cons.prems(4) obtain s1 where
    step: "applyOp operation s = Inr s1" and rest: "runOps ops s1 = Inr s'"
    by (auto split: sum.splits)
  have fresh: "\<forall>w. operation = AddWidget w \<longrightarrow> \<not> focused w"
    using Cons.prems(3) by simp
  have i1: "index_inv s1"
    using applyOp_index [OF Cons.prems(1), of operation] step by simp
  have f1: "focus_inv s1"
    using applyOp_focus [OF Cons.prems(1,2) fresh step] .
  have "\<forall>w. AddWidget w \<in> set ops \<longrightarrow> \<not> focused w"
    using Cons.prems(3) by simp
  from Cons.IH [OF i1 f1 this rest] show ?case .
qed

text \<open>
  C1. \<open>addWidget\<close> focuses the first widget and does not touch the focus flag of a later
  one, so the claim holds for widgets that are not focused when they are added, as the
  constructor leaves them. Start from a fresh screen and run any sequence of
  \<open>addWidget\<close>, \<open>navigateUp\<close>, \<open>navigateDown\<close> (also \<open>navigate\<close> and \<open>handleInput\<close>) in
  which every widget added is not focused. If the run leaves the screen non-empty, the
  focus index is inside the vector and a widget is focused if and only if it is the one
  at the focus index.
\<close>

theorem single_focus:
  assumes "\<forall>w. AddWidget w \<in> set ops \<longrightarrow> \<not> focused w"
      and "runOps ops Screen_init = Inr s"
      and "widgets s \<noteq> []"
  shows "focusedWidgetIndex s < length (widgets s) \<and>
         (\<forall>i < length (widgets s). focused (widgets s ! i) \<longleftrightarrow> i = focusedWidgetIndex s)"
proof -
  have "index_inv s"
    using runOps_index [OF index_inv_init, of ops] assms(2) by simp
  then have "focusedWidgetIndex s < length (widgets s)"
    using assms(3) by (simp add: index_inv_def)
  moreover have "focus_inv s"
    using runOps_focus [OF index_inv_init focus_inv_init assms(1,2)] .
  ultimately show ?thesis
    by (simp add: focus_inv_def)
qed

theorem single_focus_witness:
  "runOps
      [AddWidget (Widget_new 0 0 128 10 (Label ''A'' True)),
       AddWidget (Widget_new 0 12 128 10 (Label ''B'' False)),
       AddWidget (Widget_new 14 54 100 10 (Button ''C'' (Some 7))),
       NavigateDown, NavigateDown, NavigateDown, NavigateUp]
      Screen_init
    = Inr \<lparr>widgets =
        [\<lparr>pos_x = 0, pos_y = 0, width = 128, height = 10, focused = False,
            dirty = True, kind = Label ''A'' True\<rparr>,
         \<lparr>pos_x = 0, pos_y = 12, width = 128, height = 10, focused = False,
            dirty = True, kind = Label ''B'' False\<rparr>,
         \<lparr>pos_x = 14, pos_y = 54, width = 100, height = 10, focused = True,
            dirty = True, kind = Button ''C'' (Some 7)\<rparr>],
        focusedWidgetIndex = 2\<rparr>
   \<and> focused (Widget_new 14 54 100 10 (Button ''C'' (Some 7))
         \<lparr>focused := True, dirty := True\<rparr>)
   \<and> \<not> focused ([\<lparr>pos_x = 0, pos_y = 0, width = 128, height = 10, focused = False,
            dirty = True, kind = Label ''A'' True\<rparr>,
         \<lparr>pos_x = 0, pos_y = 12, width = 128, height = 10, focused = False,
            dirty = True, kind = Label ''B'' False\<rparr>,
         \<lparr>pos_x = 14, pos_y = 54, width = 100, height = 10, focused = True,
            dirty = True, kind = Button ''C'' (Some 7)\<rparr>] ! 0)
   \<and> \<not> focused ([\<lparr>pos_x = 0, pos_y = 0, width = 128, height = 10, focused = False,
            dirty = True, kind = Label ''A'' True\<rparr>,
         \<lparr>pos_x = 0, pos_y = 12, width = 128, height = 10, focused = False,
            dirty = True, kind = Label ''B'' False\<rparr>,
         \<lparr>pos_x = 14, pos_y = 54, width = 100, height = 10, focused = True,
            dirty = True, kind = Button ''C'' (Some 7)\<rparr>] ! 1)"
proof -
  let ?ops = "[AddWidget (Widget_new 0 0 128 10 (Label ''A'' True)),
       AddWidget (Widget_new 0 12 128 10 (Label ''B'' False)),
       AddWidget (Widget_new 14 54 100 10 (Button ''C'' (Some 7))),
       NavigateDown, NavigateDown, NavigateDown, NavigateUp]"
  let ?s = "\<lparr>widgets =
        [\<lparr>pos_x = 0, pos_y = 0, width = 128, height = 10, focused = False,
            dirty = True, kind = Label ''A'' True\<rparr>,
         \<lparr>pos_x = 0, pos_y = 12, width = 128, height = 10, focused = False,
            dirty = True, kind = Label ''B'' False\<rparr>,
         \<lparr>pos_x = 14, pos_y = 54, width = 100, height = 10, focused = True,
            dirty = True, kind = Button ''C'' (Some 7)\<rparr>],
        focusedWidgetIndex = 2\<rparr>"
  have fresh: "\<forall>w. AddWidget w \<in> set ?ops \<longrightarrow> \<not> focused w"
    by (auto simp: Widget_new_def)
  have run: "runOps ?ops Screen_init = Inr ?s"
    by (simp add: addWidget_def vector_max_size_def Let_def setFocus_def navigateDown_def
        navigateUp_def changeFocus_def size_t_add_def size_t_of_int_def Widget_new_def
        Screen_init_def)
  have ne: "widgets ?s \<noteq> []"
    by simp
  from single_focus [OF fresh run ne] run show ?thesis
    by simp
qed

text \<open>
  \<open>setFocus\<close> is public. A second widget that is already focused when it is added stays
  focused beside the first: two focused widgets, and the focus index on the first.
\<close>

theorem single_focus_counterexample:
  "runOps
      [AddWidget (Widget_new 0 0 128 10 (Label ''A'' True)),
       AddWidget (setFocus True (Widget_new 14 54 100 10 (Button ''B'' (Some 7))))]
      Screen_init
    = Inr \<lparr>widgets =
        [\<lparr>pos_x = 0, pos_y = 0, width = 128, height = 10, focused = True,
            dirty = True, kind = Label ''A'' True\<rparr>,
         \<lparr>pos_x = 14, pos_y = 54, width = 100, height = 10, focused = True,
            dirty = True, kind = Button ''B'' (Some 7)\<rparr>],
        focusedWidgetIndex = 0\<rparr>
   \<and> focused ([\<lparr>pos_x = 0, pos_y = 0, width = 128, height = 10, focused = True,
            dirty = True, kind = Label ''A'' True\<rparr>,
         \<lparr>pos_x = 14, pos_y = 54, width = 100, height = 10, focused = True,
            dirty = True, kind = Button ''B'' (Some 7)\<rparr>] ! 0)
   \<and> focused ([\<lparr>pos_x = 0, pos_y = 0, width = 128, height = 10, focused = True,
            dirty = True, kind = Label ''A'' True\<rparr>,
         \<lparr>pos_x = 14, pos_y = 54, width = 100, height = 10, focused = True,
            dirty = True, kind = Button ''B'' (Some 7)\<rparr>] ! 1)"
  by (simp add: addWidget_def vector_max_size_def Let_def setFocus_def Widget_new_def
      Screen_init_def)

text \<open>
  C9. No sequence of \<open>addWidget\<close>, \<open>navigateUp\<close>, \<open>navigateDown\<close>, \<open>navigate\<close> and
  \<open>handleInput\<close> from a fresh screen ever indexes the vector out of range, and whenever
  the screen it reaches is non-empty the focus index is below the number of widgets.
\<close>

theorem focus_index_in_bounds:
  "runOps ops Screen_init \<noteq> Inl OutOfRange \<and>
   (\<forall>s. runOps ops Screen_init = Inr s \<longrightarrow> widgets s \<noteq> [] \<longrightarrow>
        focusedWidgetIndex s < length (widgets s))"
  using runOps_index [OF index_inv_init, of ops]
  by (auto simp: index_inv_def)

theorem focus_index_in_bounds_witness:
  "runOps
      [NavigateUp, HandleInput 0xFF02FD,
       AddWidget (Widget_new 0 0 128 10 (Label ''Voltage Graph'' True)),
       AddWidget (Widget_new 14 54 100 10 (Button ''Next Graph'' (Some 3))),
       Navigate (- 5), HandleInput 0xFF02FD, NavigateDown]
      Screen_init
    = Inr \<lparr>widgets =
        [\<lparr>pos_x = 0, pos_y = 0, width = 128, height = 10, focused = True,
            dirty = True, kind = Label ''Voltage Graph'' True\<rparr>,
         \<lparr>pos_x = 14, pos_y = 54, width = 100, height = 10, focused = False,
            dirty = True, kind = Button ''Next Graph'' (Some 3)\<rparr>],
        focusedWidgetIndex = 0\<rparr>
   \<and> (0::nat) < length
        [\<lparr>pos_x = 0, pos_y = 0, width = 128, height = 10, focused = True,
            dirty = True, kind = Label ''Voltage Graph'' True\<rparr>,
         \<lparr>pos_x = 14, pos_y = 54, width = 100, height = 10, focused = False,
            dirty = True, kind = Button ''Next Graph'' (Some 3)\<rparr>]"
proof -
  let ?ops = "[NavigateUp, HandleInput 0xFF02FD,
       AddWidget (Widget_new 0 0 128 10 (Label ''Voltage Graph'' True)),
       AddWidget (Widget_new 14 54 100 10 (Button ''Next Graph'' (Some 3))),
       Navigate (- 5), HandleInput 0xFF02FD, NavigateDown]"
  let ?s = "\<lparr>widgets =
        [\<lparr>pos_x = 0, pos_y = 0, width = 128, height = 10, focused = True,
            dirty = True, kind = Label ''Voltage Graph'' True\<rparr>,
         \<lparr>pos_x = 14, pos_y = 54, width = 100, height = 10, focused = False,
            dirty = True, kind = Button ''Next Graph'' (Some 3)\<rparr>],
        focusedWidgetIndex = 0\<rparr>"
  have run: "runOps ?ops Screen_init = Inr ?s"
    by (simp add: addWidget_def vector_max_size_def Let_def setFocus_def navigateDown_def
        navigateUp_def navigate_def changeFocus_def size_t_add_def size_t_of_int_def
        Widget_new_def Screen_init_def handleInput_def numeral_2_eq_2 [symmetric])
  from focus_index_in_bounds [of ?ops] run show ?thesis
    by simp
qed

end
